theory Spec2Isabelle
  imports Complex_Main
begin

section \<open>Relative entropy of climpred: numeric values and errors\<close>

text \<open>
  The module \<^verbatim>\<open>climpred/relative_entropy.py\<close> computes with numpy floats (doubles).
  The model keeps their special values and their range, and abstracts the rounding
  within the range: a float is a real, or one of the three values that numpy produces
  instead of raising (overflow, division by zero and the logarithm of a non-positive
  number only warn).
\<close>

datatype npfloat = Finite real | PosInf | NegInf | NaN

text \<open>
  The result of one numpy operation whose exact value is \<open>x\<close>: an infinity from
  \<open>2 ^ 1024\<close> on, zero up to half the least positive double, and \<open>x\<close> itself in
  between. The sign of a zero is not kept.
\<close>

definition overflow_bound :: real where
  "overflow_bound = 2 ^ 1024"

definition underflow_bound :: real where
  "underflow_bound = 1 / 2 ^ 1075"

definition to_double :: "real \<Rightarrow> npfloat" where
  "to_double x =
     (if overflow_bound \<le> x then PosInf
      else if x \<le> - overflow_bound then NegInf
      else if \<bar>x\<bar> \<le> underflow_bound then Finite 0
      else Finite x)"

datatype py_error =
    NameError | UnboundLocalError | KeyError | ValueError | LinAlgError | ZeroDivisionError
  | InsufficientControlLengthError

type_synonym vec = "real list"
type_synonym mat = "real list list"

fun np_div :: "npfloat \<Rightarrow> npfloat \<Rightarrow> npfloat" where
  "np_div (Finite a) (Finite b) =
     (if b \<noteq> 0 then to_double (a / b)
      else if 0 < a then PosInf else if a < 0 then NegInf else NaN)"
| "np_div NaN _ = NaN"
| "np_div _ NaN = NaN"
| "np_div (Finite a) _ = Finite 0"
| "np_div PosInf (Finite b) = (if 0 \<le> b then PosInf else NegInf)"
| "np_div NegInf (Finite b) = (if 0 \<le> b then NegInf else PosInf)"
| "np_div _ _ = NaN"

fun np_log :: "npfloat \<Rightarrow> npfloat" where
  "np_log (Finite x) = (if 0 < x then to_double (ln x) else if x = 0 then NegInf else NaN)"
| "np_log PosInf = PosInf"
| "np_log NegInf = NaN"
| "np_log NaN = NaN"

fun np_add :: "npfloat \<Rightarrow> npfloat \<Rightarrow> npfloat" where
  "np_add (Finite a) (Finite b) = to_double (a + b)"
| "np_add NaN _ = NaN"
| "np_add _ NaN = NaN"
| "np_add PosInf NegInf = NaN"
| "np_add NegInf PosInf = NaN"
| "np_add PosInf _ = PosInf"
| "np_add _ PosInf = PosInf"
| "np_add NegInf _ = NegInf"
| "np_add _ NegInf = NegInf"

fun np_neg :: "npfloat \<Rightarrow> npfloat" where
  "np_neg (Finite a) = Finite (- a)"
| "np_neg PosInf = NegInf"
| "np_neg NegInf = PosInf"
| "np_neg NaN = NaN"

definition np_sub :: "npfloat \<Rightarrow> npfloat \<Rightarrow> npfloat" where
  "np_sub a b = np_add a (np_neg b)"

fun np_scale :: "real \<Rightarrow> npfloat \<Rightarrow> npfloat" where
  "np_scale c (Finite a) = to_double (c * a)"
| "np_scale c NaN = NaN"
| "np_scale c PosInf = (if 0 < c then PosInf else if c < 0 then NegInf else NaN)"
| "np_scale c NegInf = (if 0 < c then NegInf else if c < 0 then PosInf else NaN)"

fun np_sum :: "npfloat list \<Rightarrow> npfloat" where
  "np_sum [] = Finite 0"
| "np_sum (x # xs) = np_add x (np_sum xs)"

section \<open>Vectors and matrices\<close>

text \<open>A matrix is the list of its rows.\<close>

definition ncols :: "'a list list \<Rightarrow> nat" where
  "ncols A = (case A of [] \<Rightarrow> 0 | r # _ \<Rightarrow> length r)"

definition is_square :: "nat \<Rightarrow> mat \<Rightarrow> bool" where
  "is_square n A = (length A = n \<and> list_all (\<lambda>r. length r = n) A)"

definition dot :: "vec \<Rightarrow> vec \<Rightarrow> real" where
  "dot u v = sum_list (map2 (*) u v)"

definition vsub :: "vec \<Rightarrow> vec \<Rightarrow> vec" where
  "vsub u v = map2 (-) u v"

definition mat_vec :: "mat \<Rightarrow> vec \<Rightarrow> vec" where
  "mat_vec A v = map (\<lambda>r. dot r v) A"

definition column :: "mat \<Rightarrow> nat \<Rightarrow> vec" where
  "column A j = map (\<lambda>r. r ! j) A"

definition mat_mul :: "nat \<Rightarrow> mat \<Rightarrow> mat \<Rightarrow> mat" where
  "mat_mul n A B = map (\<lambda>r. map (\<lambda>j. dot r (column B j)) [0..<n]) A"

definition identity :: "nat \<Rightarrow> mat" where
  "identity n = map (\<lambda>i. map (\<lambda>j. if i = j then 1 else 0) [0..<n]) [0..<n]"

definition diagonal :: "mat \<Rightarrow> vec" where
  "diagonal A = map (\<lambda>i. A ! i ! i) [0..<length A]"

definition trace :: "mat \<Rightarrow> real" where
  "trace A = sum_list (diagonal A)"

fun del_at :: "nat \<Rightarrow> 'a list \<Rightarrow> 'a list" where
  "del_at _ [] = []"
| "del_at 0 (x # xs) = xs"
| "del_at (Suc i) (x # xs) = x # del_at i xs"

text \<open>
  The determinant, in exact arithmetic, by elimination with row exchanges: the pivot row
  is the first row whose leading entry is not zero, a column of zeros gives determinant
  0, an exchange changes the sign. The source applies it to square matrices, whose rows
  are not empty.
\<close>

fun pivot_index :: "mat \<Rightarrow> nat option" where
  "pivot_index [] = None"
| "pivot_index (r # rs) = (if hd r \<noteq> 0 then Some 0 else map_option Suc (pivot_index rs))"

definition eliminate :: "vec \<Rightarrow> vec \<Rightarrow> vec" where
  "eliminate p row = map2 (\<lambda>x y. x - hd row / hd p * y) (tl row) (tl p)"

function det :: "mat \<Rightarrow> real" where
  "det [] = 1"
| "det (r # rs) =
     (if hd r \<noteq> 0 then hd r * det (map (eliminate r) rs)
      else
        (case pivot_index rs of
           None \<Rightarrow> 0
         | Some k \<Rightarrow> - (hd (rs ! k) * det (map (eliminate (rs ! k)) (rs[k := r])))))"
  by pat_completeness auto
termination
  by (relation "measure length") auto

text \<open>
  \<^verbatim>\<open>np.linalg.det\<close> works in doubles (an LU factorisation by LAPACK): its value
  overflows to an infinity, underflows to zero, and is rounded, so that on a singular
  matrix it can be a small number other than zero. It is a parameter of the formula
  below, \<open>det_fn\<close>, and the theorems for every input speak of the value it returns.
  \<open>np_linalg_det\<close> is its instance for concrete runs: the exact determinant brought
  into the range of doubles, which is numpy's value wherever the arithmetic of the
  factorisation is exact or the value leaves the range.
\<close>

type_synonym det_fun = "mat \<Rightarrow> npfloat"

definition np_linalg_det :: det_fun where
  "np_linalg_det A = to_double (det A)"

section \<open>The least-squares solve\<close>

text \<open>
  \<^verbatim>\<open>np.linalg.lstsq(a, b)\<close> returns \<^verbatim>\<open>(x, resid, rank, s)\<close>: the solution of minimal norm
  among the minimisers of the residual, and the rank of \<^verbatim>\<open>a\<close>. It raises
  \<^verbatim>\<open>LinAlgError\<close> only on incompatible shapes, never on a singular matrix. The source
  reads \<^verbatim>\<open>x\<close> alone, so the model returns \<^verbatim>\<open>x\<close> and \<^verbatim>\<open>rank\<close>. numpy takes a singular
  value for zero when it is at most \<^verbatim>\<open>rcond\<close> times the largest one; the source
  passes no \<^verbatim>\<open>rcond\<close>, which then is the machine precision (times the size of the
  matrix in later versions of numpy). The solve is a parameter of the formula below;
  \<open>np_lstsq\<close> is its instance for concrete runs, the pseudo-inverse built column by
  column (Greville's recursion) in exact arithmetic, where a column counts as dependent
  on the earlier ones when what it adds to their span is at most \<open>rcond\<close> times the
  longest column. For a matrix with orthogonal columns, a diagonal matrix among them,
  the singular values are the lengths of the columns and that is numpy's cut; for a
  matrix whose singular values all lie above numpy's cut no column is dropped and the
  result is the exact solution of minimal norm.
\<close>

type_synonym lstsq_fun = "mat \<Rightarrow> vec \<Rightarrow> py_error + (vec \<times> nat)"

definition vadd :: "vec \<Rightarrow> vec \<Rightarrow> vec" where
  "vadd u v = map2 (+) u v"

definition vscale :: "real \<Rightarrow> vec \<Rightarrow> vec" where
  "vscale c v = map ((*) c) v"

definition lincomb :: "nat \<Rightarrow> real list \<Rightarrow> vec list \<Rightarrow> vec" where
  "lincomb m cs vs = foldr (\<lambda>(c, v) acc. vadd (vscale c v) acc) (zip cs vs) (replicate m 0)"

definition nonzero :: "vec \<Rightarrow> bool" where
  "nonzero v = list_ex (\<lambda>c. c \<noteq> 0) v"

text \<open>
  One step: \<open>cols\<close> are the columns seen so far, \<open>P\<close> the rows of their pseudo-inverse,
  \<open>a\<close> the next column.
\<close>

definition rcond :: real where
  "rcond = 1 / 2 ^ 52"

text \<open>
  The square of the cut: \<open>rcond\<close> times the length of the longest column, squared.
\<close>

definition cut_sq :: "mat \<Rightarrow> real" where
  "cut_sq A =
     rcond\<^sup>2 * foldr max (map (\<lambda>j. dot (column A j) (column A j)) [0..<ncols A]) 0"

definition greville_step ::
  "nat \<Rightarrow> real \<Rightarrow> vec \<Rightarrow> vec list \<times> vec list \<times> nat \<Rightarrow> vec list \<times> vec list \<times> nat" where
  "greville_step m tol a st =
     (case st of (cols, P, rank) \<Rightarrow>
        let d = map (\<lambda>p. dot p a) P;
            c = vsub a (lincomb m d cols);
            b = (if tol < dot c c then vscale (1 / dot c c) c
                 else vscale (1 / (1 + dot d d)) (lincomb m d P))
        in (cols @ [a], map2 (\<lambda>p dj. vsub p (vscale dj b)) P d @ [b],
            if tol < dot c c then Suc rank else rank))"

definition pinv_rank :: "mat \<Rightarrow> mat \<times> nat" where
  "pinv_rank A =
     (let m = length A; n = ncols A;
          st = foldl (\<lambda>st j. greville_step m (cut_sq A) (column A j) st) ([], [], 0) [0..<n]
      in (fst (snd st), snd (snd st)))"

definition np_lstsq :: lstsq_fun where
  "np_lstsq A b =
     (if list_all (\<lambda>r. length r = ncols A) A \<and> length b = length A
      then Inr (mat_vec (fst (pinv_rank A)) b, snd (pinv_rank A))
      else Inl LinAlgError)"

section \<open>The relative entropy formula\<close>

text \<open>
  \<^verbatim>\<open>sigma_x / sigma_b\<close> on arrays divides entry by entry; \<^verbatim>\<open>np.trace\<close> then adds the
  diagonal of the quotient.
\<close>

definition elementwise_div :: "mat \<Rightarrow> mat \<Rightarrow> npfloat list list" where
  "elementwise_div X B = map2 (map2 (\<lambda>x b. np_div (Finite x) (Finite b))) X B"

definition np_trace :: "npfloat list list \<Rightarrow> npfloat" where
  "np_trace Q = np_sum (map (\<lambda>i. Q ! i ! i) [0..<length Q])"

definition fac :: real where
  "fac = 0.5"

definition dispersion_term :: "det_fun \<Rightarrow> mat \<Rightarrow> mat \<Rightarrow> int \<Rightarrow> npfloat" where
  "dispersion_term det_fn sigma_b sigma_x neofs =
     np_scale fac
       (np_sub
          (np_add (np_log (np_div (det_fn sigma_b) (det_fn sigma_x)))
                  (np_trace (elementwise_div sigma_x sigma_b)))
          (Finite (of_int neofs)))"

text \<open>\<^verbatim>\<open>np.matmul\<close> of two vectors is their inner product.\<close>

definition np_matmul :: "vec \<Rightarrow> vec \<Rightarrow> npfloat" where
  "np_matmul u v = to_double (dot u v)"

text \<open>
  \<^verbatim>\<open>_relative_entropy_formula\<close>. The determinants need square matrices
  (\<^verbatim>\<open>LinAlgError\<close> otherwise), the quotient and the difference of the means need equal
  shapes (\<^verbatim>\<open>ValueError\<close>). Nothing else raises: \<^verbatim>\<open>rank\<close> is bound and never read.
\<close>

definition relative_entropy_formula ::
  "det_fun \<Rightarrow> lstsq_fun \<Rightarrow> mat \<Rightarrow> mat \<Rightarrow> vec \<Rightarrow> vec \<Rightarrow> int
     \<Rightarrow> py_error + (npfloat \<times> npfloat \<times> npfloat)" where
  "relative_entropy_formula det_fn lstsq sigma_b sigma_x mu_x mu_b neofs =
     (if is_square (length sigma_b) sigma_b \<and> is_square (length sigma_x) sigma_x
      then
        if length sigma_x = length sigma_b
        then
          let dispersion = dispersion_term det_fn sigma_b sigma_x neofs
          in if length mu_x = length mu_b
             then
               (case lstsq sigma_b (vsub mu_x mu_b) of
                  Inl e \<Rightarrow> Inl e
                | Inr (x, rank) \<Rightarrow>
                    if length x = length (vsub mu_x mu_b)
                    then
                      let signal = np_scale fac (np_matmul (vsub mu_x mu_b) x);
                          R = np_add dispersion signal
                      in Inr (R, dispersion, signal)
                    else Inl ValueError)
             else Inl ValueError
        else Inl ValueError
      else Inl LinAlgError)"

section \<open>The formula as the specification words it\<close>

text \<open>
  The specification's dispersion uses the matrix product of \<open>sigma_x\<close> with the
  inverse of \<open>sigma_b\<close>. The inverse is the adjugate over the determinant.
\<close>

definition minor_mat :: "mat \<Rightarrow> nat \<Rightarrow> nat \<Rightarrow> mat" where
  "minor_mat A i j = map (del_at j) (del_at i A)"

definition mat_inv :: "mat \<Rightarrow> mat" where
  "mat_inv A =
     map (\<lambda>i. map (\<lambda>j. (- 1) ^ (i + j) * det (minor_mat A j i) / det A) [0..<length A])
       [0..<length A]"

definition dispersion_spec :: "mat \<Rightarrow> mat \<Rightarrow> int \<Rightarrow> real" where
  "dispersion_spec sigma_b sigma_x neofs =
     0.5 * (ln (det sigma_b / det sigma_x)
            + trace (mat_mul (length sigma_b) sigma_x (mat_inv sigma_b))
            - of_int neofs)"

text \<open>Symmetric positive definite matrices, by the quadratic form.\<close>

definition quad_form :: "mat \<Rightarrow> vec \<Rightarrow> real" where
  "quad_form A x = dot x (mat_vec A x)"

definition spd :: "nat \<Rightarrow> mat \<Rightarrow> bool" where
  "spd n A =
     (is_square n A \<and> (\<forall>i<n. \<forall>j<n. A ! i ! j = A ! j ! i) \<and>
      (\<forall>x. length x = n \<and> nonzero x \<longrightarrow> 0 < quad_form A x))"



section \<open>Labelled fields and the names the module does not define\<close>

text \<open>
  An ensemble field (an \<^verbatim>\<open>xr.DataArray\<close> with dimensions initialization, member, time and
  the grid) is its three coordinate lists and its values, laid out as
  \<open>f_data ! member ! initialization ! time\<close>, each a vector of grid values. \<open>f_lat\<close>
  is the \<^verbatim>\<open>lat\<close> coordinate, when the field has one. A control series is the list
  of its grid vectors over time.
\<close>

type_synonym label = int
type_synonym grid = "real list"

record field =
  f_inits :: "label list"
  f_members :: "label list"
  f_times :: "label list"
  f_lat :: "real list option"
  f_data :: "grid list list list"

text \<open>
  Three names are read in the module and bound nowhere in it:
  \<^verbatim>\<open>detrend_by_control_time_mean\<close> (line 109), \<^verbatim>\<open>ens\<close> (lines 156 to 158) and
  \<^verbatim>\<open>control\<close> (line 196). Python looks such a name up in the module's globals when
  the statement runs and raises \<^verbatim>\<open>NameError\<close> when it is absent. The globals are an
  argument of the model; \<open>module_globals\<close> are those of the module as it is.
\<close>

record py_globals =
  g_detrend_by_control_time_mean :: "bool option"
  g_ens :: "label option"
  g_control :: "grid list option"

definition module_globals :: py_globals where
  "module_globals =
     \<lparr>g_detrend_by_control_time_mean = None, g_ens = None, g_control = None\<rparr>"

section \<open>The pseudo ensemble\<close>

text \<open>
  Modelled from the spec: \<^verbatim>\<open>_pseudo_ens\<close> is imported from
  \<^verbatim>\<open>climpred.prediction\<close>, which is not part of the source at hand. By the
  specification (4.1) one round is shaped like the reference (same initialization
  count, member count and lead-time length); each (initialization, member) pair gets a
  contiguous window of the control, of the lead-time length, whose start is drawn from
  \<open>0 .. control.time.size - lead_time_length\<close>; a shorter control fails with
  \<^verbatim>\<open>InsufficientControlLengthError\<close>. The random source is the stream \<open>draws\<close> read
  from position \<open>pos\<close>; the new position is returned.
\<close>

definition window :: "grid list \<Rightarrow> nat \<Rightarrow> nat \<Rightarrow> grid list" where
  "window control start len = take len (drop start control)"

definition pseudo_field :: "(nat \<Rightarrow> nat) \<Rightarrow> nat \<Rightarrow> field \<Rightarrow> grid list \<Rightarrow> field" where
  "pseudo_field draws pos ds control =
     (let ninit = length (f_inits ds); nmember = length (f_members ds);
          len = length (f_times ds)
      in \<lparr>f_inits = map int [0..<ninit], f_members = map int [0..<nmember],
          f_times = f_times ds, f_lat = f_lat ds,
          f_data =
            map (\<lambda>m. map (\<lambda>i.
                   window control
                     (draws (pos + m * ninit + i) mod (length control - len + 1)) len)
                 [0..<ninit])
              [0..<nmember]\<rparr>)"

definition pseudo_ens ::
  "(nat \<Rightarrow> nat) \<Rightarrow> nat \<Rightarrow> field \<Rightarrow> grid list \<Rightarrow> py_error + (field \<times> nat)" where
  "pseudo_ens draws pos ds control =
     (if length (f_times ds) \<le> length control
      then Inr (pseudo_field draws pos ds control,
                pos + length (f_members ds) * length (f_inits ds))
      else Inl InsufficientControlLengthError)"

text \<open>
  \<^verbatim>\<open>da['initialization'] = values\<close> replaces a coordinate and raises \<^verbatim>\<open>ValueError\<close>
  when the number of labels differs from the dimension's size.
\<close>

definition set_initialization :: "field \<Rightarrow> label list \<Rightarrow> py_error + field" where
  "set_initialization F labels =
     (if length labels = length (f_inits F) then Inr (F\<lparr>f_inits := labels\<rparr>)
      else Inl ValueError)"

definition arange_members :: "field \<Rightarrow> field" where
  "arange_members F = F\<lparr>f_members := map int [0..<length (f_members F)]\<rparr>"

text \<open>
  \<^verbatim>\<open>xr.concat(ds_list, 'member')\<close> on rounds with equal initialization and time
  coordinates, as the loop builds them: members are appended; an empty list raises
  \<^verbatim>\<open>ValueError\<close>.
\<close>

definition concat_member :: "field list \<Rightarrow> py_error + field" where
  "concat_member Fs =
     (case Fs of
        [] \<Rightarrow> Inl ValueError
      | F # _ \<Rightarrow>
          Inr (F\<lparr>f_members := concat (map f_members Fs), f_data := concat (map f_data Fs)\<rparr>))"

text \<open>
  The loop of \<^verbatim>\<open>_gen_control_distribution\<close> (lines 66 to 70), with \<open>k\<close> rounds left:
  each pass calls \<^verbatim>\<open>_pseudo_ens\<close> at the current position of the random source,
  relabels the initialization axis and appends the round.
\<close>

fun gen_rounds ::
  "(nat \<Rightarrow> nat) \<Rightarrow> field \<Rightarrow> grid list \<Rightarrow> nat \<Rightarrow> nat \<Rightarrow> py_error + (field list \<times> nat)" where
  "gen_rounds draws ds control 0 pos = Inr ([], pos)"
| "gen_rounds draws ds control (Suc k) pos =
     (case pseudo_ens draws pos ds control of
        Inl e \<Rightarrow> Inl e
      | Inr (cu, pos') \<Rightarrow>
          (case set_initialization cu (f_inits ds) of
             Inl e \<Rightarrow> Inl e
           | Inr cu' \<Rightarrow>
               (case gen_rounds draws ds control k pos' of
                  Inl e \<Rightarrow> Inl e
                | Inr (rest, p) \<Rightarrow> Inr (cu' # rest, p))))"

text \<open>
  \<^verbatim>\<open>_gen_control_distribution(ds, control, it=10)\<close>. \<^verbatim>\<open>range(it)\<close> is empty for
  \<open>it \<le> 0\<close>. In the source as it stands the statement after the loop does not compile:
  line 72 ends with \<^verbatim>\<open>=\<close> and the right-hand side stands on line 73, so Python
  refuses the function with \<^verbatim>\<open>SyntaxError\<close> and no call of it returns. The definition
  below is the function with the two lines joined into the one assignment they spell;
  its result is the field and the position of the random source.
\<close>

definition gen_control_distribution ::
  "(nat \<Rightarrow> nat) \<Rightarrow> nat \<Rightarrow> field \<Rightarrow> grid list \<Rightarrow> int \<Rightarrow> py_error + (field \<times> nat)" where
  "gen_control_distribution draws pos ds control it =
     (case gen_rounds draws ds control (nat it) pos of
        Inl e \<Rightarrow> Inl e
      | Inr (ds_list, pos') \<Rightarrow>
          (case concat_member ds_list of
             Inl e \<Rightarrow> Inl e
           | Inr control_uninitialized \<Rightarrow>
               Inr (arange_members control_uninitialized, pos')))"

section \<open>The relative entropy engine\<close>

text \<open>
  Selection by label: \<^verbatim>\<open>sel(initialization=init, time=t)\<close> raises \<^verbatim>\<open>KeyError\<close> for a
  label the coordinate lacks.
\<close>

fun pos_of :: "'a list \<Rightarrow> 'a \<Rightarrow> nat option" where
  "pos_of [] x = None"
| "pos_of (y # ys) x = (if y = x then Some 0 else map_option Suc (pos_of ys x))"

definition sel :: "field \<Rightarrow> label \<Rightarrow> label \<Rightarrow> py_error + grid list" where
  "sel F init t =
     (case pos_of (f_inits F) init of
        None \<Rightarrow> Inl KeyError
      | Some i \<Rightarrow>
          (case pos_of (f_times F) t of
             None \<Rightarrow> Inl KeyError
           | Some k \<Rightarrow> Inr (map (\<lambda>mem. mem ! i ! k) (f_data F))))"

text \<open>
  \<^verbatim>\<open>mean('time')\<close> and the difference of two labelled arrays. The difference keeps the
  initialization and member labels that both operands have (xarray aligns on the
  labels) and repeats the mean along time. Grid shapes are taken equal, and the time
  axis of the control non-empty.
\<close>

definition vmean :: "grid list \<Rightarrow> grid" where
  "vmean gs =
     map (\<lambda>k. sum_list (map (\<lambda>g. g ! k) gs) / real (length gs)) [0..<ncols gs]"

definition mean_time :: "field \<Rightarrow> grid list list" where
  "mean_time C = map (map vmean) (f_data C)"

definition sub_time_mean :: "field \<Rightarrow> field \<Rightarrow> field" where
  "sub_time_mean X C =
     (let ms = filter (\<lambda>m. m \<in> set (f_members C)) (f_members X);
          is = filter (\<lambda>i. i \<in> set (f_inits C)) (f_inits X)
      in X\<lparr>f_members := ms, f_inits := is,
            f_data :=
              map (\<lambda>m. map (\<lambda>i.
                     map (\<lambda>g. vsub g
                            (mean_time C ! the (pos_of (f_members C) m)
                                         ! the (pos_of (f_inits C) i)))
                       (f_data X ! the (pos_of (f_members X) m)
                                 ! the (pos_of (f_inits X) i)))
                   is)
                ms\<rparr>)"

text \<open>
  The EOF solver (package \<^verbatim>\<open>eofs\<close>) is outside the repository: \<open>fit\<close> stands for
  \<^verbatim>\<open>Eof(base_to_calc_eofs, weights=wgts)\<close> on the stacked control, \<open>projectField\<close> for
  \<^verbatim>\<open>solver.projectField(slice, neofs=neofs, eofscaling=0, weighted=False)\<close>, which
  returns one row of \<open>neofs\<close> coordinates per member.
\<close>

record 's eof_backend =
  fit :: "field \<Rightarrow> npfloat list option \<Rightarrow> py_error + 's"
  projectField :: "'s \<Rightarrow> grid list \<Rightarrow> int \<Rightarrow> py_error + real list list"

definition np_sqrt :: "real \<Rightarrow> npfloat" where
  "np_sqrt c = (if 0 \<le> c then Finite (sqrt c) else NaN)"

text \<open>
  \<^verbatim>\<open>pc.mean('time')\<close> and \<^verbatim>\<open>np.cov(pc.T)\<close> over the rows (members) of the projected
  coordinates. With fewer than two members every entry of the covariance is NaN, and
  with fewer than two columns \<^verbatim>\<open>np.cov\<close> returns a scalar: both are \<open>None\<close> here.
\<close>

definition column_mean :: "real list list \<Rightarrow> vec" where
  "column_mean pc =
     map (\<lambda>j. sum_list (map (\<lambda>r. r ! j) pc) / real (length pc)) [0..<ncols pc]"

definition np_cov :: "real list list \<Rightarrow> mat option" where
  "np_cov pc =
     (if 2 \<le> length pc \<and> 2 \<le> ncols pc
      then Some
        (map (\<lambda>j. map (\<lambda>k.
                sum_list (map (\<lambda>r. (r ! j - column_mean pc ! j) * (r ! k - column_mean pc ! k)) pc)
                  / (real (length pc) - 1))
              [0..<ncols pc])
           [0..<ncols pc])
      else None)"

text \<open>
  The call of the formula at line 153. A scalar covariance fails in
  \<^verbatim>\<open>np.linalg.det\<close>, a NaN \<open>sigma_b\<close> in the least-squares solve (both
  \<^verbatim>\<open>LinAlgError\<close>); a NaN \<open>sigma_x\<close> alone gives NaN for dispersion and R.
\<close>

definition formula_on_estimates ::
  "det_fun \<Rightarrow> lstsq_fun \<Rightarrow> real list list \<Rightarrow> real list list \<Rightarrow> int
     \<Rightarrow> py_error + (npfloat \<times> npfloat \<times> npfloat)" where
  "formula_on_estimates det_fn lstsq pc_b pc_x neofs =
     (if 2 \<le> ncols pc_b \<and> 2 \<le> ncols pc_x
      then
        (case np_cov pc_b of
           None \<Rightarrow> Inl LinAlgError
         | Some sigma_b \<Rightarrow>
             (case np_cov pc_x of
                Some sigma_x \<Rightarrow>
                  relative_entropy_formula det_fn lstsq sigma_b sigma_x
                    (column_mean pc_x) (column_mean pc_b) neofs
              | None \<Rightarrow>
                  (case relative_entropy_formula det_fn lstsq sigma_b sigma_b
                          (column_mean pc_x) (column_mean pc_b) neofs of
                     Inl e \<Rightarrow> Inl e
                   | Inr (R, dispersion, signal) \<Rightarrow> Inr (NaN, NaN, signal))))
      else Inl LinAlgError)"

text \<open>
  The result table (a \<^verbatim>\<open>pd.DataFrame\<close>): row index, its name, the column pairs, and
  the cells that hold a value; a cell not listed is empty.
\<close>

record table =
  t_index :: "int list"
  t_index_name :: string
  t_columns :: "(string \<times> label) list"
  t_cells :: "((int \<times> string \<times> label) \<times> npfloat) list"

definition new_table :: "label list \<Rightarrow> nat \<Rightarrow> table" where
  "new_table initializations len =
     \<lparr>t_index = [1..int len - 1], t_index_name = ''Lead Year'',
      t_columns = List.product [''R'', ''S'', ''D''] initializations,
      t_cells = []\<rparr>"

text \<open>
  \<^verbatim>\<open>rel_ent.T.loc[c, ens][t] = v\<close> (lines 156 to 158). Python evaluates the name
  \<^verbatim>\<open>ens\<close> first, in the globals. What pandas then does with the key and the chained
  assignment (which labels \<^verbatim>\<open>loc\<close> matches the pair against, and whether the value
  reaches \<^verbatim>\<open>rel_ent\<close> through the transposed frame) differs between its versions; it is
  the parameter \<open>assign\<close>, given the table, the component, the value of \<^verbatim>\<open>ens\<close>, the
  lead time and the value.
\<close>

type_synonym assign_fun = "table \<Rightarrow> string \<Rightarrow> label \<Rightarrow> int \<Rightarrow> npfloat \<Rightarrow> py_error + table"

definition store ::
  "py_globals \<Rightarrow> assign_fun \<Rightarrow> table \<Rightarrow> string \<Rightarrow> int \<Rightarrow> npfloat \<Rightarrow> py_error + table" where
  "store g assign T c t v =
     (case g_ens g of
        None \<Rightarrow> Inl NameError
      | Some ens \<Rightarrow> assign T c ens t v)"

text \<open>An unbound local (\<^verbatim>\<open>anom_x\<close>, \<^verbatim>\<open>anom_b\<close>) raises when it is read.\<close>

definition read_local :: "'a option \<Rightarrow> py_error + 'a" where
  "read_local v = (case v of None \<Rightarrow> Inl UnboundLocalError | Some x \<Rightarrow> Inr x)"

text \<open>The body of the inner loop (lines 135 to 158) for one \<open>init\<close> and one \<open>t\<close>.\<close>

definition loop_body ::
  "'s eof_backend \<Rightarrow> py_globals \<Rightarrow> det_fun \<Rightarrow> lstsq_fun \<Rightarrow> assign_fun \<Rightarrow> 's \<Rightarrow> field option
     \<Rightarrow> field option \<Rightarrow> int \<Rightarrow> label \<Rightarrow> label \<Rightarrow> table \<Rightarrow> py_error + table" where
  "loop_body be g det_fn lstsq assign solver anom_b anom_x neofs init t T =
     (case read_local anom_b of Inl e \<Rightarrow> Inl e | Inr ab \<Rightarrow>
      case sel ab init t of Inl e \<Rightarrow> Inl e | Inr slice_b \<Rightarrow>
      case projectField be solver slice_b neofs of Inl e \<Rightarrow> Inl e | Inr pc_b \<Rightarrow>
      case read_local anom_x of Inl e \<Rightarrow> Inl e | Inr ax \<Rightarrow>
      case sel ax init t of Inl e \<Rightarrow> Inl e | Inr slice_x \<Rightarrow>
      case projectField be solver slice_x neofs of Inl e \<Rightarrow> Inl e | Inr pc_x \<Rightarrow>
      case formula_on_estimates det_fn lstsq pc_b pc_x neofs of
        Inl e \<Rightarrow> Inl e | Inr (r, d, s) \<Rightarrow>
      case store g assign T ''R'' t r of Inl e \<Rightarrow> Inl e | Inr T1 \<Rightarrow>
      case store g assign T1 ''D'' t d of Inl e \<Rightarrow> Inl e | Inr T2 \<Rightarrow>
      store g assign T2 ''S'' t s)"

fun time_loop ::
  "(label \<Rightarrow> table \<Rightarrow> py_error + table) \<Rightarrow> label list \<Rightarrow> table \<Rightarrow> py_error + table" where
  "time_loop body [] T = Inr T"
| "time_loop body (t # ts) T =
     (case body t T of Inl e \<Rightarrow> Inl e | Inr T' \<Rightarrow> time_loop body ts T')"

fun init_loop ::
  "(label \<Rightarrow> label \<Rightarrow> table \<Rightarrow> py_error + table) \<Rightarrow> label list \<Rightarrow> label list \<Rightarrow> table
     \<Rightarrow> py_error + table" where
  "init_loop body [] ts T = Inr T"
| "init_loop body (init # inits) ts T =
     (case time_loop (body init) ts T of
        Inl e \<Rightarrow> Inl e
      | Inr T' \<Rightarrow> init_loop body inits ts T')"

text \<open>The slice \<^verbatim>\<open>values[:ntime]\<close>; a negative \<open>ntime\<close> counts from the end.\<close>

definition py_take :: "int \<Rightarrow> 'a list \<Rightarrow> 'a list" where
  "py_take n xs = (if 0 \<le> n then take (nat n) xs else take (length xs - nat (- n)) xs)"

text \<open>
  Lines 108 to 114. The source has \<^verbatim>\<open>if detrend_by_control_time_mean:\<close> with the two
  assignments below it at the same indentation; the model reads them as its body. The
  condition is evaluated first in any reading, and the name is not bound in the module.
  With the name bound to a false value the two locals stay unbound.
\<close>

definition anomalies ::
  "py_globals \<Rightarrow> field \<Rightarrow> field \<Rightarrow> bool \<Rightarrow> py_error + (field option \<times> field option)" where
  "anomalies g initialized control_uninitialized anomaly_data =
     (if anomaly_data then Inr (Some initialized, Some control_uninitialized)
      else
        (case g_detrend_by_control_time_mean g of
           None \<Rightarrow> Inl NameError
         | Some detrend \<Rightarrow>
             if detrend
             then Inr (Some (sub_time_mean initialized control_uninitialized),
                       Some (sub_time_mean control_uninitialized control_uninitialized))
             else Inr (None, None)))"

text \<open>Lines 124 to 128: no weights on a curvilinear grid, else the root of cos(lat).\<close>

definition eof_weights :: "bool \<Rightarrow> field option \<Rightarrow> py_error + npfloat list option" where
  "eof_weights curv anom_x =
     (if curv then Inr None
      else
        (case read_local anom_x of
           Inl e \<Rightarrow> Inl e
         | Inr ax \<Rightarrow>
             (case f_lat ax of
                None \<Rightarrow> Inl KeyError
              | Some lat \<Rightarrow> Inr (Some (map (\<lambda>phi. np_sqrt (cos (phi * pi / 180))) lat)))))"

text \<open>\<^verbatim>\<open>compute_relative_entropy\<close>; \<open>neofs\<close> and \<open>ntime\<close> are \<open>None\<close> when not given.\<close>

definition compute_relative_entropy ::
  "'s eof_backend \<Rightarrow> py_globals \<Rightarrow> det_fun \<Rightarrow> lstsq_fun \<Rightarrow> assign_fun \<Rightarrow> field \<Rightarrow> field \<Rightarrow> bool
     \<Rightarrow> int option \<Rightarrow> bool \<Rightarrow> int option \<Rightarrow> py_error + table" where
  "compute_relative_entropy be g det_fn lstsq assign initialized control_uninitialized
       anomaly_data neofs curv ntime =
     (let neofs' = (case neofs of None \<Rightarrow> int (length (f_members initialized)) | Some n \<Rightarrow> n);
          ntime' = (case ntime of None \<Rightarrow> int (length (f_times initialized)) | Some n \<Rightarrow> n)
      in
      case anomalies g initialized control_uninitialized anomaly_data of
        Inl e \<Rightarrow> Inl e
      | Inr (anom_x, anom_b) \<Rightarrow>
          let initializations = f_inits initialized;
              rel_ent = new_table initializations (length (f_times initialized))
          in
          (case eof_weights curv anom_x of
             Inl e \<Rightarrow> Inl e
           | Inr wgts \<Rightarrow>
               (case fit be control_uninitialized wgts of
                  Inl e \<Rightarrow> Inl e
                | Inr solver \<Rightarrow>
                    init_loop (loop_body be g det_fn lstsq assign solver anom_b anom_x neofs')
                      initializations (py_take ntime' (f_times initialized)) rel_ent)))"

section \<open>The bootstrap threshold\<close>

text \<open>
  The number of passes of the loop at line 195,
  \<^verbatim>\<open>range(min(1, int(bootstrap / initialized.time.size)))\<close>: true division (which raises
  on a zero size), truncation towards zero, the minimum with 1, and an empty range for
  a bound below 1.
\<close>

definition py_int_div :: "int \<Rightarrow> int \<Rightarrow> int" where
  "py_int_div a b = sgn a * sgn b * (\<bar>a\<bar> div \<bar>b\<bar>)"

definition bootstrap_rounds :: "int \<Rightarrow> nat \<Rightarrow> py_error + nat" where
  "bootstrap_rounds bootstrap time_size =
     (if time_size = 0 then Inl ZeroDivisionError
      else Inr (nat (min 1 (py_int_div bootstrap (int time_size)))))"

text \<open>The number of rounds as the specification words it.\<close>

definition rounds_spec :: "int \<Rightarrow> nat \<Rightarrow> int" where
  "rounds_spec bootstrap time_size = max 1 (bootstrap div int time_size)"

text \<open>
  One pass of the loop (lines 196 to 202). The engine is called without
  \<^verbatim>\<open>anomaly_data\<close>, which is then its default \<^verbatim>\<open>False\<close>.
\<close>

definition bootstrap_round ::
  "'s eof_backend \<Rightarrow> py_globals \<Rightarrow> det_fun \<Rightarrow> lstsq_fun \<Rightarrow> assign_fun \<Rightarrow> (nat \<Rightarrow> nat) \<Rightarrow> nat
     \<Rightarrow> field \<Rightarrow> field \<Rightarrow> bool \<Rightarrow> int \<Rightarrow> int \<Rightarrow> py_error + (table \<times> nat)" where
  "bootstrap_round be g det_fn lstsq assign draws pos initialized control_uninitialized curv
       neofs ntime =
     (case g_control g of
        None \<Rightarrow> Inl NameError
      | Some control \<Rightarrow>
          (case pseudo_ens draws pos initialized control of
             Inl e \<Rightarrow> Inl e
           | Inr (ds_control, pos') \<Rightarrow>
               (case set_initialization ds_control (f_inits initialized) of
                  Inl e \<Rightarrow> Inl e
                | Inr ds_control' \<Rightarrow>
                    (case compute_relative_entropy be g det_fn lstsq assign
                            (arange_members ds_control') control_uninitialized False
                            (Some neofs) curv (Some ntime) of
                       Inl e \<Rightarrow> Inl e
                     | Inr ds_pseudo_rel_ent \<Rightarrow> Inr (ds_pseudo_rel_ent, pos')))))"

fun bootstrap_loop ::
  "(nat \<Rightarrow> py_error + (table \<times> nat)) \<Rightarrow> nat \<Rightarrow> nat \<Rightarrow> py_error + (table list \<times> nat)" where
  "bootstrap_loop body 0 pos = Inr ([], pos)"
| "bootstrap_loop body (Suc k) pos =
     (case body pos of
        Inl e \<Rightarrow> Inl e
      | Inr (T, pos') \<Rightarrow>
          (case bootstrap_loop body k pos' of
             Inl e \<Rightarrow> Inl e
           | Inr (x, p) \<Rightarrow> Inr (T # x, p)))"

text \<open>
  \<^verbatim>\<open>bootstrap_relative_entropy\<close>. \<^verbatim>\<open>pd.concat\<close> raises \<^verbatim>\<open>ValueError\<close> on an empty list;
  \<open>quantiles\<close> stands for the pandas and numpy calls of lines 203 to 205 on the pooled
  tables and \<open>sig / 100\<close>.
\<close>

definition bootstrap_relative_entropy ::
  "'s eof_backend \<Rightarrow> py_globals \<Rightarrow> det_fun \<Rightarrow> lstsq_fun \<Rightarrow> assign_fun
     \<Rightarrow> (table list \<Rightarrow> real \<Rightarrow> 'r) \<Rightarrow> (nat \<Rightarrow> nat) \<Rightarrow> nat \<Rightarrow> field \<Rightarrow> field \<Rightarrow> real \<Rightarrow> int \<Rightarrow> bool
     \<Rightarrow> int option \<Rightarrow> int option \<Rightarrow> py_error + 'r" where
  "bootstrap_relative_entropy be g det_fn lstsq assign quantiles draws pos initialized
       control_uninitialized sig bootstrap curv neofs ntime =
     (let neofs' = (case neofs of None \<Rightarrow> int (length (f_members initialized)) | Some n \<Rightarrow> n);
          ntime' = (case ntime of None \<Rightarrow> int (length (f_times initialized)) | Some n \<Rightarrow> n)
      in
      case bootstrap_rounds bootstrap (length (f_times initialized)) of
        Inl e \<Rightarrow> Inl e
      | Inr k \<Rightarrow>
          (case bootstrap_loop
                  (\<lambda>pos. bootstrap_round be g det_fn lstsq assign draws pos initialized
                            control_uninitialized curv neofs' ntime')
                  k pos of
             Inl e \<Rightarrow> Inl e
           | Inr (x, pos') \<Rightarrow>
               (case x of [] \<Rightarrow> Inl ValueError | _ # _ \<Rightarrow> Inr (quantiles x (sig / 100)))))"

text \<open>
  A stand-in for the EOF solver in concrete runs: the leading EOFs are the first
  coordinate axes of the grid, so that a projection keeps the first \<open>neofs\<close> grid values
  of each member.
\<close>

definition axes_backend :: "unit eof_backend" where
  "axes_backend =
     \<lparr>fit = (\<lambda>base wgts. Inr ()),
      projectField = (\<lambda>solver slice neofs. Inr (map (take (nat neofs)) slice))\<rparr>"

section \<open>A small ensemble for concrete runs\<close>

text \<open>
  One initialization (1990), three members, two lead times, a grid of two points; the
  control distribution has the same shape.
\<close>

definition demo_initialized :: field where
  "demo_initialized =
     \<lparr>f_inits = [1990], f_members = [0, 1, 2], f_times = [1, 2], f_lat = None,
      f_data = [[[[1, 0], [2, 1]]], [[[0, 1], [1, 3]]], [[[2, 2], [0, 0]]]]\<rparr>"

definition demo_control_uninitialized :: field where
  "demo_control_uninitialized =
     \<lparr>f_inits = [1990], f_members = [0, 1, 2], f_times = [1, 2], f_lat = None,
      f_data = [[[[1, 1], [0, 1]]], [[[0, 2], [1, 0]]], [[[3, 0], [2, 2]]]]\<rparr>"

text \<open>
  Round \<open>j\<close> of the generator started at position \<open>pos\<close>: what \<^verbatim>\<open>_pseudo_ens\<close> returns
  at the position that \<open>j\<close> earlier calls leave, with the initialization labels of the
  reference.
\<close>

definition round_at :: "(nat \<Rightarrow> nat) \<Rightarrow> nat \<Rightarrow> field \<Rightarrow> grid list \<Rightarrow> nat \<Rightarrow> field" where
  "round_at draws pos ds control j =
     (pseudo_field draws (pos + j * (length (f_members ds) * length (f_inits ds))) ds control)
       \<lparr>f_inits := f_inits ds\<rparr>"

section \<open>Properties of the formula\<close>

lemmas eval_defs = relative_entropy_formula_def dispersion_term_def is_square_def np_lstsq_def
  pinv_rank_def greville_step_def cut_sq_def rcond_def column_def dot_def vsub_def lincomb_def
  vadd_def vscale_def nonzero_def elementwise_div_def np_trace_def np_sub_def fac_def
  mat_vec_def np_matmul_def np_linalg_det_def upt_rec Let_def eliminate_def ncols_def
  power2_eq_square

lemmas spec_defs = dispersion_spec_def mat_inv_def mat_mul_def minor_mat_def trace_def
  diagonal_def identity_def

text \<open>Values within the range of doubles are kept.\<close>

lemma to_double_zero: "to_double 0 = Finite 0"
  by (simp add: to_double_def overflow_bound_def underflow_bound_def)

lemma to_double_pos:
  assumes "1 / 2 ^ 100 \<le> x" "x \<le> 2 ^ 100"
  shows "to_double x = Finite x"
proof -
  have "(2::real) ^ 100 < 2 ^ 1024" by simp
  with assms(2) have hi: "x < 2 ^ 1024" by simp
  have "1 / 2 ^ 1075 < 1 / (2::real) ^ 100" by simp
  with assms(1) have lo: "1 / 2 ^ 1075 < x" by simp
  have "(0::real) < 1 / 2 ^ 1075" by simp
  then have "0 < x" using lo by (rule less_trans)
  with hi lo show ?thesis
    by (simp add: to_double_def overflow_bound_def underflow_bound_def)
qed


lemma to_double_neg:
  assumes "x \<le> - (1 / 2 ^ 100)" "- (2 ^ 100) \<le> x"
  shows "to_double x = Finite x"
proof -
  have "(2::real) ^ 100 < 2 ^ 1024" by simp
  with assms(2) have hi: "- (2 ^ 1024) < x" by simp
  have "1 / 2 ^ 1075 < 1 / (2::real) ^ 100" by simp
  with assms(1) have lo: "x < - (1 / 2 ^ 1075)" by simp
  have "(0::real) < 1 / 2 ^ 1075" by simp
  with lo have neg: "x < 0" by simp
  have "x < 2 ^ 1024" using neg by (rule less_trans) simp
  with hi lo neg show ?thesis
    by (simp add: to_double_def overflow_bound_def underflow_bound_def)
qed

lemma to_double_nat:
  assumes "n \<le> 2 ^ 53"
  shows "to_double (real n) = Finite (real n)"
proof (cases "n = 0")
  case True
  then show ?thesis by (simp add: to_double_zero)
next
  case False
  then have "1 \<le> real n" by simp
  moreover have "real n \<le> 2 ^ 53"
    using assms by (metis of_nat_le_iff of_nat_numeral of_nat_power)
  ultimately show ?thesis
    by (intro to_double_pos) simp_all
qed

lemmas to_double_simps = to_double_zero to_double_pos to_double_neg

text \<open>Bounds on the two logarithms of the concrete runs.\<close>

lemma ln_3_lower: "101 / 100 \<le> ln (3::real)"
proof -
  have "exp (101 / 100 :: real) = exp (101 / 1000) ^ 10"
    using exp_of_nat_mult [of 10 "101 / 1000 :: real"] by simp
  also have "\<dots> \<le> (1 + 101 / 1000 + (101 / 1000)\<^sup>2) ^ 10"
    by (intro power_mono exp_bound) simp_all
  also have "\<dots> \<le> 3"
    by (simp add: power2_eq_square power_divide)
  finally have e: "exp (101 / 100 :: real) \<le> 3" .
  show ?thesis
    by (rule iffD2 [OF ln_ge_iff]) (simp, rule e)
qed

lemma ln_3_upper: "ln (3::real) \<le> 2"
  using ln_le_minus_one [of "3::real"] by simp

lemma ln_34_lower: "- (3 / 8) \<le> ln (3 / 4 :: real)"
  using ln_one_minus_pos_lower_bound [of "1 / 4 :: real"] by (simp add: power2_eq_square)

lemma ln_34_upper: "ln (3 / 4 :: real) \<le> - (1 / 4)"
  using ln_one_minus_pos_upper_bound [of "1 / 4 :: real"] by simp

lemma length_two: "length x = 2 \<Longrightarrow> \<exists>a b. x = [a, b]"
  by (cases x; cases "tl x") auto

lemma spd_two_by_two:
  fixes p q r :: real
  assumes pos: "\<And>a b. a \<noteq> 0 \<or> b \<noteq> 0 \<Longrightarrow> 0 < p * a\<^sup>2 + 2 * q * a * b + r * b\<^sup>2"
  shows "spd 2 [[p, q], [q, r]]"
  unfolding spd_def
proof (intro conjI allI impI)
  show "is_square 2 [[p, q], [q, r]]" by (simp add: is_square_def)
next
  fix i j :: nat assume "i < 2" "j < 2"
  then show "[[p, q], [q, r]] ! i ! j = [[p, q], [q, r]] ! j ! i"
    by (auto simp: less_2_cases_iff)
next
  fix x :: vec assume h: "length x = 2 \<and> nonzero x"
  then obtain a b where x: "x = [a, b]" using length_two by blast
  with h have "a \<noteq> 0 \<or> b \<noteq> 0" by (auto simp: nonzero_def)
  from pos [OF this] show "0 < quad_form [[p, q], [q, r]] x"
    unfolding x by (simp add: quad_form_def dot_def mat_vec_def power2_eq_square algebra_simps)
qed

lemma spd_2112: "spd 2 [[2, 1], [1, 2]]"
proof (rule spd_two_by_two)
  fix a b :: real assume nz: "a \<noteq> 0 \<or> b \<noteq> 0"
  have "2 * a\<^sup>2 + 2 * 1 * a * b + 2 * b\<^sup>2 = (a\<^sup>2 + b\<^sup>2) + (a + b)\<^sup>2"
    by (simp add: power2_eq_square algebra_simps)
  moreover have "0 < (a\<^sup>2 + b\<^sup>2) + (a + b)\<^sup>2"
    by (rule add_pos_nonneg) (use nz in \<open>simp_all add: sum_power2_gt_zero_iff\<close>)
  ultimately show "0 < 2 * a\<^sup>2 + 2 * 1 * a * b + 2 * b\<^sup>2"
    by (simp only:)
qed

lemma spd_diagonal: "0 < c \<Longrightarrow> 0 < e \<Longrightarrow> spd 2 [[c, 0], [0, e]]"
proof (rule spd_two_by_two)
  fix a b :: real assume c: "0 < c" and e: "0 < e" and nz: "a \<noteq> 0 \<or> b \<noteq> 0"
  have "0 < c * a\<^sup>2 + e * b\<^sup>2"
  proof (cases "a = 0")
    case True
    with nz e show ?thesis by simp
  next
    case False
    with c have "0 < c * a\<^sup>2" by simp
    moreover have "0 \<le> e * b\<^sup>2" using e by simp
    ultimately show ?thesis by (rule add_pos_nonneg)
  qed
  moreover have "c * a\<^sup>2 + 2 * 0 * a * b + e * b\<^sup>2 = c * a\<^sup>2 + e * b\<^sup>2"
    by simp
  ultimately show "0 < c * a\<^sup>2 + 2 * 0 * a * b + e * b\<^sup>2"
    by (simp only:)
qed

lemma spd_scaled_identity: "0 < c \<Longrightarrow> spd 2 [[c, 0], [0, c]]"
  by (rule spd_diagonal)

text \<open>
  C1 (dispersion uses the trace of sigma_x times the inverse of sigma_b). The source
  divides entry by entry. At sigma_b = [[2, 1], [1, 2]], sigma_x = the identity, both
  symmetric positive definite, the source returns dispersion (ln 3 - 1) / 2 where the
  stated formula gives (ln 3 - 2/3) / 2.
\<close>

theorem dispersion_trace_is_elementwise:
  "relative_entropy_formula np_linalg_det np_lstsq [[2, 1], [1, 2]] [[1, 0], [0, 1]]
       [0, 0] [0, 0] 2
     = Inr (Finite ((ln 3 - 1) / 2), Finite ((ln 3 - 1) / 2), Finite 0)
   \<and> dispersion_spec [[2, 1], [1, 2]] [[1, 0], [0, 1]] 2 = (ln 3 - 2 / 3) / 2
   \<and> mat_mul 2 [[2, 1], [1, 2]] (mat_inv [[2, 1], [1, 2]]) = identity 2
   \<and> (ln 3 - 1) / 2 \<noteq> (ln 3 - 2 / 3) / (2::real)"
  using ln_3_lower ln_3_upper by (simp add: spec_defs eval_defs to_double_simps)

text \<open>
  C4 (dispersion, signal and R are non-negative). With the entrywise quotient the
  dispersion can be negative: at sigma_b = [[2, 1], [1, 2]], sigma_x = [[2, 0], [0, 2]]
  and equal means the source returns dispersion = R = ln (3/4) / 2, which is below 0.
\<close>

theorem dispersion_negative_at_spd_input:
  "relative_entropy_formula np_linalg_det np_lstsq [[2, 1], [1, 2]] [[2, 0], [0, 2]]
       [0, 0] [0, 0] 2
     = Inr (Finite (ln (3 / 4) / 2), Finite (ln (3 / 4) / 2), Finite 0)
   \<and> ln (3 / 4) / 2 < (0::real)"
  using ln_34_lower ln_34_upper by (simp add: eval_defs to_double_simps)

text \<open>
  C6 (a singular sigma_b raises SingularCovarianceError). The source raises nothing of
  its own and never reads the rank: at the singular sigma_b = [[1, 1], [1, 1]] it
  returns a triple, with dispersion and R equal to minus infinity.
\<close>

theorem singular_sigma_b_returns_counterexample:
  "det [[1, 1], [1, 1]] = 0 \<and>
   relative_entropy_formula np_linalg_det np_lstsq [[1, 1], [1, 1]] [[1, 0], [0, 1]]
       [1, 0] [0, 0] 2
     = Inr (NegInf, NegInf, Finite (1 / 8))"
  by (simp add: eval_defs to_double_simps)

lemma is_square_length: "is_square n A \<Longrightarrow> length A = n"
  by (simp add: is_square_def)

lemma is_square_self: "is_square n A \<Longrightarrow> is_square (length A) A"
  by (simp add: is_square_def)

lemma length_vsub: "length u = n \<Longrightarrow> length v = n \<Longrightarrow> length (vsub u v) = n"
  by (simp add: vsub_def)

lemma formula_returns:
  assumes "is_square n sigma_b" "is_square n sigma_x" "length mu_x = n" "length mu_b = n"
    and "lstsq sigma_b (vsub mu_x mu_b) = Inr (x, rank)" "length x = n"
  shows "relative_entropy_formula det_fn lstsq sigma_b sigma_x mu_x mu_b neofs =
     Inr (np_add (dispersion_term det_fn sigma_b sigma_x neofs)
                 (np_scale fac (np_matmul (vsub mu_x mu_b) x)),
          dispersion_term det_fn sigma_b sigma_x neofs,
          np_scale fac (np_matmul (vsub mu_x mu_b) x))"
  using assms
  by (simp add: relative_entropy_formula_def is_square_self is_square_length length_vsub Let_def)

text \<open>
  C6, as the source has it: for well-shaped inputs on which the least-squares solve
  reports a rank below the size of sigma_b, the formula raises no error. The rank is
  not read: the triple returned is the one computed for any other input, the
  dispersion from the two determinants and the entrywise quotient, the signal from the
  solve's \<open>x\<close>, and their sum.
\<close>

theorem rank_deficiency_not_raised:
  assumes "is_square n sigma_b" "is_square n sigma_x" "length mu_x = n" "length mu_b = n"
    and "lstsq sigma_b (vsub mu_x mu_b) = Inr (x, rank)" and "rank < n" and "length x = n"
  shows "relative_entropy_formula det_fn lstsq sigma_b sigma_x mu_x mu_b neofs =
     Inr (np_add (dispersion_term det_fn sigma_b sigma_x neofs)
                 (np_scale fac (np_matmul (vsub mu_x mu_b) x)),
          dispersion_term det_fn sigma_b sigma_x neofs,
          np_scale fac (np_matmul (vsub mu_x mu_b) x))"
  using assms(1-5,7)
  by (simp add: relative_entropy_formula_def is_square_self is_square_length length_vsub Let_def)

theorem rank_deficiency_not_raised_witness:
  "is_square 2 [[1, 2], [2, 4]] \<and> is_square 2 [[1, 0], [0, 1]] \<and>
   np_lstsq [[1, 2], [2, 4]] (vsub [1, 2] [0, 0]) = Inr ([1 / 5, 2 / 5], 1) \<and> (1::nat) < 2 \<and>
   dispersion_term np_linalg_det [[1, 2], [2, 4]] [[1, 0], [0, 1]] 2 = NegInf \<and>
   np_scale fac (np_matmul (vsub [1, 2] [0, 0]) [1 / 5, 2 / 5]) = Finite (1 / 2) \<and>
   relative_entropy_formula np_linalg_det np_lstsq [[1, 2], [2, 4]] [[1, 0], [0, 1]]
       [1, 2] [0, 0] 2
     = Inr (NegInf, NegInf, Finite (1 / 2))"
proof -
  have sb: "is_square 2 [[1, 2], [2, 4]]" by (simp add: is_square_def)
  have sx: "is_square 2 [[1, 0], [0, 1]]" by (simp add: is_square_def)
  have l: "np_lstsq [[1, 2], [2, 4]] (vsub [1, 2] [0, 0]) = Inr ([1 / 5, 2 / 5], 1)"
    by (simp add: eval_defs)
  have D: "dispersion_term np_linalg_det [[1, 2], [2, 4]] [[1, 0], [0, 1]] 2 = NegInf"
    by (simp add: eval_defs to_double_simps)
  have S: "np_scale fac (np_matmul (vsub [1, 2] [0, 0]) [1 / 5, 2 / 5]) = Finite (1 / 2)"
    by (simp add: eval_defs to_double_simps)
  from rank_deficiency_not_raised [where det_fn = np_linalg_det and lstsq = np_lstsq
      and neofs = 2, OF sb sx _ _ l]
  show ?thesis using sb sx l D S by simp
qed

section \<open>Linear algebra on lists, and the formula on positive definite input\<close>

lemma np_sum_ones: "n \<le> 2 ^ 53 \<Longrightarrow> np_sum (replicate n (Finite 1)) = Finite (real n)"
proof (induction n)
  case 0
  show ?case by simp
next
  case (Suc n)
  then have "np_sum (replicate n (Finite 1)) = Finite (real n)" by simp
  then have "np_sum (replicate (Suc n) (Finite 1)) = to_double (real (Suc n))"
    by simp
  with to_double_nat [OF Suc.prems] show ?case by simp
qed

lemma np_trace_self:
  assumes sq: "is_square n A" and nz: "\<forall>i<n. A ! i ! i \<noteq> 0" and n: "n \<le> 2 ^ 53"
  shows "np_trace (elementwise_div A A) = Finite (real n)"
proof -
  have len: "length A = n" and rows: "\<And>i. i < n \<Longrightarrow> length (A ! i) = n"
    using sq by (auto simp: is_square_def list_all_length)
  have "map (\<lambda>i. elementwise_div A A ! i ! i) [0..<n] = map (\<lambda>i. Finite 1) [0..<n]"
  proof (rule map_cong [OF refl])
    fix i assume "i \<in> set [0..<n]"
    then have i: "i < n" by simp
    then show "elementwise_div A A ! i ! i = Finite 1"
      using len rows [OF i] nz by (simp add: elementwise_div_def to_double_pos)
  qed
  moreover have "length (elementwise_div A A) = n"
    by (simp add: elementwise_div_def len)
  ultimately show ?thesis
    using n by (simp add: np_trace_def map_replicate_const np_sum_ones)
qed

lemma dot_vsub_self: "dot (vsub u u) x = 0"
  unfolding dot_def vsub_def
  by (induction u arbitrary: x) (auto simp: zip_Cons1 split: list.splits)

lemma dot_nth: "length u = length v \<Longrightarrow> dot u v = (\<Sum>i<length u. u ! i * v ! i)"
  by (simp add: dot_def sum_list_sum_nth atLeast0LessThan)

lemma dot_map_upt: "length v = n \<Longrightarrow> dot (map f [0..<n]) v = (\<Sum>j<n. f j * v ! j)"
  by (simp add: dot_nth)










lemma dot_commute: "dot u v = dot v u"
  unfolding dot_def
proof (induction u arbitrary: v)
  case Nil then show ?case by simp
next
  case (Cons a u) then show ?case by (cases v) (simp_all add: mult.commute)
qed

lemma dot_unit:
  assumes "length v = n" "i < n"
  shows "dot (map (\<lambda>j. if j = i then 1 else 0) [0..<n]) v = v ! i"
proof -
  have "(\<Sum>j<n. (if j = i then 1 else 0) * v ! j) = (\<Sum>j<n. if j = i then v ! j else 0)"
    by (rule sum.cong) auto
  then show ?thesis using assms by (simp add: dot_map_upt)
qed

lemma spd_diag_pos:
  assumes "spd n A" "i < n"
  shows "0 < A ! i ! i"
proof -
  let ?e = "map (\<lambda>j. if j = i then 1 else 0 :: real) [0..<n]"
  have sq: "length A = n" "length (A ! i) = n"
    using assms by (auto simp: spd_def is_square_def list_all_length)
  have len: "length ?e = n" by simp
  have nz: "nonzero ?e"
    using assms(2) by (auto simp: nonzero_def list_ex_iff intro!: bexI [of _ i])
  have "length (mat_vec A ?e) = n"
    using sq by (simp add: mat_vec_def)
  then have "quad_form A ?e = mat_vec A ?e ! i"
    unfolding quad_form_def using assms(2) by (rule dot_unit)
  also have "\<dots> = dot ?e (A ! i)"
    using assms(2) sq by (simp add: mat_vec_def dot_commute)
  also have "\<dots> = A ! i ! i"
    using sq(2) assms(2) by (rule dot_unit)
  finally have "quad_form A ?e = A ! i ! i" .
  moreover have "0 < quad_form A ?e"
    using assms(1) len nz unfolding spd_def by blast
  ultimately show ?thesis by simp
qed

text \<open>
  A positive definite matrix has a positive determinant: its first pivot is positive, and
  what elimination leaves of the other rows is positive definite again (the quadratic
  form of the remainder at \<open>y\<close> is that of the matrix at \<open>y\<close> extended by a suitable first
  entry).
\<close>

lemma dot_Cons: "dot (a # u) (b # v) = a * b + dot u v"
  by (simp add: dot_def)

lemma dot_elim_row:
  assumes "length R = n" "length b = n" "length y = n"
  shows "dot (map2 (\<lambda>x z. x - k * z) R b) y = dot R y - k * dot b y"
  using assms
  by (simp add: dot_nth sum_subtractf sum_distrib_left algebra_simps)

lemma quad_form_unit:
  assumes "is_square n A" "i < n"
  shows "quad_form A (map (\<lambda>j. if j = i then 1 else 0) [0..<n]) = A ! i ! i"
proof -
  let ?e = "map (\<lambda>j. if j = i then 1 else 0 :: real) [0..<n]"
  have sq: "length A = n" "length (A ! i) = n"
    using assms by (auto simp: is_square_def list_all_length)
  have "length (mat_vec A ?e) = n"
    using sq by (simp add: mat_vec_def)
  then have "quad_form A ?e = mat_vec A ?e ! i"
    unfolding quad_form_def using assms(2) by (rule dot_unit)
  also have "\<dots> = dot ?e (A ! i)"
    using assms(2) sq by (simp add: mat_vec_def dot_commute)
  also have "\<dots> = A ! i ! i"
    using sq(2) assms(2) by (rule dot_unit)
  finally show ?thesis .
qed

lemma nonzero_unit: "i < n \<Longrightarrow> nonzero (map (\<lambda>j. if j = i then 1 else 0) [0..<n])"
  by (auto simp: nonzero_def list_ex_iff intro!: bexI [of _ i])

lemma positive_definite_det:
  assumes "is_square n A"
    and "\<And>x. length x = n \<Longrightarrow> nonzero x \<Longrightarrow> 0 < quad_form A x"
  shows "0 < det A"
  using assms
proof (induction n arbitrary: A)
  case 0
  then show ?case by (simp add: is_square_def)
next
  case (Suc n)
  from Suc.prems(1) obtain r rs where A: "A = r # rs"
    by (cases A) (auto simp: is_square_def)
  have lr: "length r = Suc n" and lrs: "length rs = n"
    and rows: "list_all (\<lambda>row. length row = Suc n) rs"
    using Suc.prems(1) A by (auto simp: is_square_def)
  from lr obtain a b where r: "r = a # b" and lb: "length b = n"
    by (cases r) auto
  have "0 < quad_form A (map (\<lambda>j. if j = 0 then 1 else 0) [0..<Suc n])"
    by (rule Suc.prems(2)) (simp_all add: nonzero_unit del: upt_Suc)
  then have a: "0 < a"
    using quad_form_unit [OF Suc.prems(1), of 0] A r by simp
  let ?S = "map (eliminate r) rs"
  have sqS: "is_square n ?S"
    using rows lrs lb r by (auto simp: is_square_def list_all_iff eliminate_def)
  have pdS: "0 < quad_form ?S y" if ly: "length y = n" and nz: "nonzero y" for y
  proof -
    let ?h = "- (dot b y / a)"
    let ?x = "?h # y"
    have row: "dot (eliminate r row) y = dot row ?x" if "row \<in> set rs" for row
    proof -
      from that rows have "length row = Suc n" by (simp add: list_all_iff)
      then obtain c R where row: "row = c # R" and lR: "length R = n"
        by (cases row) auto
      show ?thesis
        using dot_elim_row [OF lR lb ly, of "c / a"] a
        by (simp add: eliminate_def row r dot_Cons)
    qed
    have S: "mat_vec ?S y = mat_vec rs ?x"
      by (simp add: mat_vec_def row)
    have r0: "dot r ?x = 0"
      using a by (simp add: r dot_Cons)
    have "quad_form A ?x = ?h * dot r ?x + dot y (mat_vec rs ?x)"
      by (simp add: quad_form_def A mat_vec_def dot_Cons)
    then have "quad_form A ?x = quad_form ?S y"
      by (simp add: r0 S quad_form_def)
    moreover have "0 < quad_form A ?x"
      using ly nz by (intro Suc.prems(2)) (simp_all add: nonzero_def)
    ultimately show ?thesis by simp
  qed
  from Suc.IH [OF sqS pdS] a show ?case
    by (simp add: A r)
qed

lemma spd_det_pos: "spd n A \<Longrightarrow> 0 < det A"
  unfolding spd_def by (rule positive_definite_det) auto

lemma dispersion_term_self:
  assumes "is_square n sigma" "det_fn sigma = Finite d" "d \<noteq> 0" "\<forall>i<n. sigma ! i ! i \<noteq> 0"
    and "n \<le> 2 ^ 53"
  shows "dispersion_term det_fn sigma sigma (int n) = Finite 0"
proof -
  have "np_log (np_div (det_fn sigma) (det_fn sigma)) = Finite 0"
    using assms(2,3) by (simp add: to_double_pos to_double_zero)
  moreover have "np_trace (elementwise_div sigma sigma) = Finite (real n)"
    using assms(1,4,5) by (rule np_trace_self)
  ultimately show ?thesis
    using to_double_nat [OF assms(5)]
    by (simp add: dispersion_term_def np_sub_def to_double_zero)
qed

text \<open>
  C3 (identical distributions carry zero relative entropy). The statement fails where
  the determinant leaves the range of doubles: at sigma = [[2^600, 0], [0, 2^600]],
  symmetric positive definite, \<^verbatim>\<open>np.linalg.det\<close> overflows to infinity, the quotient of
  the two determinants is NaN, and the source returns (NaN, NaN, 0).
\<close>

theorem identical_distributions_overflow_counterexample:
  "spd 2 [[2 ^ 600, 0], [0, 2 ^ 600]] \<and>
   np_linalg_det [[2 ^ 600, 0], [0, 2 ^ 600]] = PosInf \<and>
   relative_entropy_formula np_linalg_det np_lstsq [[2 ^ 600, 0], [0, 2 ^ 600]]
       [[2 ^ 600, 0], [0, 2 ^ 600]] [1, 2] [1, 2] 2
     = Inr (NaN, NaN, Finite 0)"
proof -
  have spd: "spd 2 [[2 ^ 600, 0], [0, 2 ^ 600]]"
    by (rule spd_scaled_identity) simp
  have d: "np_linalg_det [[2 ^ 600, 0], [0, 2 ^ 600]] = PosInf"
    by (simp add: np_linalg_det_def eliminate_def to_double_def overflow_bound_def)
  have D: "dispersion_term np_linalg_det [[2 ^ 600, 0], [0, 2 ^ 600]]
             [[2 ^ 600, 0], [0, 2 ^ 600]] 2 = NaN"
    unfolding dispersion_term_def d by (simp add: np_sub_def)
  have l: "np_lstsq [[2 ^ 600, 0], [0, 2 ^ 600]] [0, 0] = Inr ([0, 0], 2)"
    by (simp add: eval_defs)
  have s: "np_scale fac (np_matmul [0, 0] [0, 0]) = Finite 0"
    by (simp add: eval_defs to_double_zero)
  have "relative_entropy_formula np_linalg_det np_lstsq [[2 ^ 600, 0], [0, 2 ^ 600]]
       [[2 ^ 600, 0], [0, 2 ^ 600]] [1, 2] [1, 2] 2
     = Inr (NaN, NaN, Finite 0)"
    by (simp add: relative_entropy_formula_def is_square_def vsub_def D l s
          del: power_numeral)
  with spd d show ?thesis by (simp only: simp_thms)
qed

text \<open>
  C3, as the source has it: for a symmetric positive definite sigma of size neofs (at
  most 2^53, so that the sum of the ones on the diagonal of the quotient is exact) on
  which \<^verbatim>\<open>np.linalg.det\<close> returns a finite value other than zero, and a mean mu, the
  formula called with sigma_b = sigma_x = sigma and mu_b = mu_x = mu returns (0, 0, 0);
  the solve is any that returns a vector of length neofs.
\<close>

theorem identical_distributions_zero:
  assumes "spd n sigma" and "length mu = n" and "neofs = int n" and "n \<le> 2 ^ 53"
    and "det_fn sigma = Finite d" and "d \<noteq> 0"
    and "lstsq sigma (vsub mu mu) = Inr (x, rank)" and "length x = n"
  shows "relative_entropy_formula det_fn lstsq sigma sigma mu mu neofs
           = Inr (Finite 0, Finite 0, Finite 0)"
proof -
  have sq: "is_square n sigma" using assms(1) by (simp add: spd_def)
  have "\<forall>i<n. sigma ! i ! i \<noteq> 0"
    using spd_diag_pos [OF assms(1)] by fastforce
  with sq assms(5,6) have "dispersion_term det_fn sigma sigma (int n) = Finite 0"
    using assms(4) by (rule dispersion_term_self)
  then have D: "dispersion_term det_fn sigma sigma neofs = Finite 0"
    using assms(3) by simp
  have S: "np_scale fac (np_matmul (vsub mu mu) x) = Finite 0"
    by (simp add: np_matmul_def dot_vsub_self to_double_zero)
  show ?thesis
    using formula_returns [where det_fn = det_fn and lstsq = lstsq and neofs = neofs,
        OF sq sq assms(2) assms(2) assms(7,8)]
    by (simp add: D S to_double_zero)
qed

theorem identical_distributions_zero_witness:
  "spd 2 [[2, 1], [1, 2]] \<and> (2::nat) \<le> 2 ^ 53 \<and>
   np_linalg_det [[2, 1], [1, 2]] = Finite 3 \<and> (3::real) \<noteq> 0 \<and>
   np_lstsq [[2, 1], [1, 2]] (vsub [5, 7] [5, 7]) = Inr ([0, 0], 2) \<and>
   relative_entropy_formula np_linalg_det np_lstsq [[2, 1], [1, 2]] [[2, 1], [1, 2]]
       [5, 7] [5, 7] 2
     = Inr (Finite 0, Finite 0, Finite 0)"
proof -
  have n: "(2::nat) \<le> 2 ^ 53" by simp
  have d: "np_linalg_det [[2, 1], [1, 2]] = Finite 3"
    by (simp add: eval_defs to_double_simps)
  have l: "np_lstsq [[2, 1], [1, 2]] (vsub [5, 7] [5, 7]) = Inr ([0, 0], 2)"
    by (simp add: eval_defs)
  from identical_distributions_zero [where det_fn = np_linalg_det and lstsq = np_lstsq
      and neofs = 2, OF spd_2112 _ _ n d _ l]
  show ?thesis using spd_2112 d l by simp
qed



lemma dot_zero_right: "dot u (replicate n 0) = 0"
  unfolding dot_def
proof (induction u arbitrary: n)
  case Nil then show ?case by simp
next
  case (Cons a u) then show ?case by (cases n) simp_all
qed





text \<open>
  The signal, unlike the dispersion, is never negative on positive definite input: it is
  half the quadratic form of sigma_b at the solution of the system.
\<close>

lemma quad_form_nonneg:
  assumes "spd n A" "length x = n"
  shows "0 \<le> quad_form A x"
proof (cases "nonzero x")
  case True
  with assms have "0 < quad_form A x" unfolding spd_def by blast
  then show ?thesis by simp
next
  case False
  then have "x = replicate (length x) 0"
    by (auto simp: nonzero_def list_ex_iff intro!: replicate_eqI)
  then have "quad_form A x = dot (mat_vec A x) (replicate (length x) 0)"
    by (simp add: quad_form_def dot_commute)
  then show ?thesis by (simp add: dot_zero_right)
qed

lemma signal_nonneg:
  assumes "spd n sigma_b" "length x = n" "mat_vec sigma_b x = d"
  shows "0 \<le> fac * dot d x"
proof -
  have "dot d x = quad_form sigma_b x"
    using assms(3) by (simp add: quad_form_def dot_commute)
  with quad_form_nonneg [OF assms(1,2)] show ?thesis
    by (simp add: fac_def)
qed

section \<open>The repeated pseudo-ensemble generator\<close>

lemma pseudo_field_shape:
  "f_inits (pseudo_field draws pos ds control) = map int [0..<length (f_inits ds)]"
  "f_members (pseudo_field draws pos ds control) = map int [0..<length (f_members ds)]"
  "f_times (pseudo_field draws pos ds control) = f_times ds"
  "f_lat (pseudo_field draws pos ds control) = f_lat ds"
  "length (f_data (pseudo_field draws pos ds control)) = length (f_members ds)"
  by (simp_all add: pseudo_field_def Let_def)

lemma round_at_shift:
  "round_at draws (pos + length (f_members ds) * length (f_inits ds)) ds control j
     = round_at draws pos ds control (Suc j)"
  by (simp add: round_at_def add.assoc)

lemma round_at_shape:
  "f_inits (round_at draws pos ds control j) = f_inits ds"
  "f_members (round_at draws pos ds control j) = map int [0..<length (f_members ds)]"
  "f_times (round_at draws pos ds control j) = f_times ds"
  "f_lat (round_at draws pos ds control j) = f_lat ds"
  "f_data (round_at draws pos ds control j)
     = f_data (pseudo_field draws
         (pos + j * (length (f_members ds) * length (f_inits ds))) ds control)"
  by (simp_all add: round_at_def pseudo_field_shape)

text \<open>
  The loop as a whole: with a control at least as long as the lead-time axis, \<open>k\<close>
  passes return the \<open>k\<close> rounds that \<^verbatim>\<open>_pseudo_ens\<close> produces at the successive
  positions of the random source, in order, and leave the source after the last of
  them.
\<close>

lemma gen_rounds_eq:
  assumes "length (f_times ds) \<le> length control"
  shows "gen_rounds draws ds control k pos
     = Inr (map (round_at draws pos ds control) [0..<k],
            pos + k * (length (f_members ds) * length (f_inits ds)))"
proof (induction k arbitrary: pos)
  case 0
  show ?case by simp
next
  case (Suc k)
  let ?s = "length (f_members ds) * length (f_inits ds)"
  have p: "pseudo_ens draws pos ds control = Inr (pseudo_field draws pos ds control, pos + ?s)"
    using assms by (simp add: pseudo_ens_def)
  have r: "set_initialization (pseudo_field draws pos ds control) (f_inits ds)
             = Inr (round_at draws pos ds control 0)"
    by (simp add: set_initialization_def round_at_def pseudo_field_shape)
  have "[0..<Suc k] = 0 # map Suc [0..<k]"
    by (simp add: upt_conv_Cons map_Suc_upt del: upt_Suc)
  then have m: "map (round_at draws pos ds control) [0..<Suc k]
      = round_at draws pos ds control 0 # map (round_at draws (pos + ?s) ds control) [0..<k]"
    by (simp add: round_at_shift comp_def del: upt_Suc)
  show ?case
    unfolding m using p r Suc.IH [of "pos + ?s"] by (simp add: algebra_simps)
qed

lemma concat_member_Cons:
  "concat_member (F # Fs)
     = Inr (F\<lparr>f_members := concat (map f_members (F # Fs)),
              f_data := concat (map f_data (F # Fs))\<rparr>)"
  by (simp add: concat_member_def)

lemma length_concat_const:
  "(\<And>x. length (f x) = m) \<Longrightarrow> length (concat (map f xs)) = length xs * m"
  by (induction xs) simp_all

text \<open>
  What C9 describes, for the function with lines 72 and 73 joined: for \<open>it \<ge> 1\<close> rounds
  and a control at least as long as the lead-time axis, the result is the
  concatenation along the member axis of the \<open>it\<close> rounds that \<^verbatim>\<open>_pseudo_ens\<close>
  returns at the successive positions of the random source, with \<open>it\<close> times the
  reference's member count of members, labelled 0, 1, 2, and so on, and with the
  initialization labels of the reference. The source as it stands does not compile at
  these two lines, so that no call of it returns this.
\<close>

lemma gen_control_distribution_rounds:
  assumes "1 \<le> it" and "length (f_times ds) \<le> length control"
  shows "gen_control_distribution draws pos ds control it =
     Inr (\<lparr>f_inits = f_inits ds,
           f_members = map int [0..<nat it * length (f_members ds)],
           f_times = f_times ds, f_lat = f_lat ds,
           f_data = concat (map (\<lambda>j. f_data (pseudo_field draws
                       (pos + j * (length (f_members ds) * length (f_inits ds))) ds control))
                     [0..<nat it])\<rparr>,
          pos + nat it * (length (f_members ds) * length (f_inits ds)))"
proof -
  let ?R = "round_at draws pos ds control"
  let ?Fs = "map ?R [0..<nat it]"
  from assms(1) obtain k where k: "nat it = Suc k"
    by (cases "nat it") auto
  define Gs where "Gs = map ?R [Suc 0..<Suc k]"
  have Fs: "?Fs = ?R 0 # Gs"
    unfolding k Gs_def by (simp add: upt_conv_Cons del: upt_Suc)
  have lm: "length (concat (map f_members ?Fs)) = nat it * length (f_members ds)"
    using length_concat_const [of "\<lambda>j. f_members (?R j)" "length (f_members ds)" "[0..<nat it]"]
    by (simp add: round_at_shape comp_def)
  then have lm2: "length (concat (map (f_members \<circ> ?R) [0..<nat it]))
      = nat it * length (f_members ds)"
    by simp
  have dat: "concat (map f_data ?Fs)
      = concat (map (\<lambda>j. f_data (pseudo_field draws
                       (pos + j * (length (f_members ds) * length (f_inits ds))) ds control))
                  [0..<nat it])"
    by (simp add: round_at_shape comp_def)
  have c: "concat_member ?Fs
      = Inr ((?R 0)\<lparr>f_members := concat (map f_members ?Fs), f_data := concat (map f_data ?Fs)\<rparr>)"
    unfolding Fs by (rule concat_member_Cons)
  have "gen_control_distribution draws pos ds control it
      = Inr (arange_members
               ((?R 0)\<lparr>f_members := concat (map f_members ?Fs),
                        f_data := concat (map f_data ?Fs)\<rparr>),
             pos + nat it * (length (f_members ds) * length (f_inits ds)))"
    by (simp add: gen_control_distribution_def gen_rounds_eq [OF assms(2)] c)
  also have "arange_members
               ((?R 0)\<lparr>f_members := concat (map f_members ?Fs),
                        f_data := concat (map f_data ?Fs)\<rparr>)
      = \<lparr>f_inits = f_inits ds,
         f_members = map int [0..<nat it * length (f_members ds)],
         f_times = f_times ds, f_lat = f_lat ds,
         f_data = concat (map (\<lambda>j. f_data (pseudo_field draws
                       (pos + j * (length (f_members ds) * length (f_inits ds))) ds control))
                     [0..<nat it])\<rparr>"
    by (simp only: arange_members_def field.simps lm dat)
      (simp add: lm2 round_at_def pseudo_field_def Let_def del: upt_Suc)
  finally show ?thesis .
qed

section \<open>The engine and the bootstrap in the module as it is\<close>

lemmas engine_defs = compute_relative_entropy_def anomalies_def eof_weights_def new_table_def
  loop_body_def read_local_def sel_def formula_on_estimates_def np_cov_def column_mean_def
  store_def py_take_def axes_backend_def module_globals_def ncols_def

lemmas bootstrap_defs = bootstrap_relative_entropy_def bootstrap_rounds_def py_int_div_def
  bootstrap_round_def pseudo_ens_def pseudo_field_def set_initialization_def
  arange_members_def window_def

lemma bootstrap_rounds_at_most_one: "bootstrap_rounds bootstrap n = Inr k \<Longrightarrow> k \<le> 1"
  by (auto simp: bootstrap_rounds_def split: if_splits)

text \<open>
  C5 (the number of rounds is max(1, floor(bootstrap / time.size))). The source takes
  the minimum: with bootstrap = 100 and a time axis of 10 the loop runs once where the
  stated formula gives 10 rounds, and with bootstrap = 5 it does not run at all where
  the stated formula gives one round.
\<close>

theorem bootstrap_rounds_is_min:
  "bootstrap_rounds 100 10 = Inr 1 \<and> rounds_spec 100 10 = 10 \<and>
   bootstrap_rounds 5 10 = Inr 0 \<and> rounds_spec 5 10 = 1"
  by (simp add: bootstrap_rounds_def rounds_spec_def py_int_div_def)

text \<open>
  C7 (anomalies). With \<^verbatim>\<open>anomaly_data = False\<close> the engine of the module as it is stops
  at line 109 with \<^verbatim>\<open>NameError\<close>, whatever its other arguments: no mean is subtracted.
  With \<^verbatim>\<open>anomaly_data = True\<close> both inputs are taken as they are.
\<close>

theorem anomaly_branch_raises_name_error:
  "compute_relative_entropy be module_globals det_fn lstsq assign initialized
       control_uninitialized False neofs curv ntime = Inl NameError
   \<and> anomalies g initialized control_uninitialized True
       = Inr (Some initialized, Some control_uninitialized)"
  by (simp add: compute_relative_entropy_def anomalies_def module_globals_def)

lemma store_module_globals: "store module_globals assign T c t v = Inl NameError"
  by (simp add: store_def module_globals_def)

lemma loop_body_module_globals:
  "isl (loop_body be module_globals det_fn lstsq assign solver anom_b anom_x neofs init t T)"
  by (simp add: loop_body_def store_module_globals split: sum.splits prod.splits)

lemma init_loop_fails:
  "isl (body init t T) \<Longrightarrow> isl (init_loop body (init # inits) (t # ts) T)"
  by (cases "body init t T") simp_all

text \<open>
  The frame of a returned table is the one built at lines 116 to 123, when the
  assignments of pandas change cells only.
\<close>

lemma store_frame:
  assumes "\<forall>T c e t v T'. assign T c e t v = Inr T' \<longrightarrow>
     t_index T' = t_index T \<and> t_index_name T' = t_index_name T \<and> t_columns T' = t_columns T"
    and "store g assign T c t v = Inr T'"
  shows "t_index T' = t_index T \<and> t_index_name T' = t_index_name T \<and> t_columns T' = t_columns T"
proof (cases "g_ens g")
  case None
  with assms(2) show ?thesis by (simp add: store_def)
next
  case (Some ens)
  with assms(2) have "assign T c ens t v = Inr T'" by (simp add: store_def)
  with assms(1) show ?thesis by blast
qed

lemma loop_body_frame:
  assumes "\<forall>T c e t v T'. assign T c e t v = Inr T' \<longrightarrow>
     t_index T' = t_index T \<and> t_index_name T' = t_index_name T \<and> t_columns T' = t_columns T"
    and "loop_body be g det_fn lstsq assign solver anom_b anom_x neofs init t T = Inr T'"
  shows "t_index T' = t_index T \<and> t_index_name T' = t_index_name T \<and> t_columns T' = t_columns T"
proof -
  from assms(2) obtain r d s T1 T2 where
    s1: "store g assign T ''R'' t r = Inr T1" and s2: "store g assign T1 ''D'' t d = Inr T2"
    and s3: "store g assign T2 ''S'' t s = Inr T'"
    by (auto simp: loop_body_def split: sum.splits prod.splits)
  note sf = store_frame [OF assms(1)]
  from sf [OF s1] sf [OF s2] sf [OF s3] show ?thesis
    by simp
qed

lemma time_loop_frame:
  assumes "\<And>t T T'. body t T = Inr T' \<Longrightarrow>
     t_index T' = t_index T \<and> t_index_name T' = t_index_name T \<and> t_columns T' = t_columns T"
    and "time_loop body ts T = Inr T'"
  shows "t_index T' = t_index T \<and> t_index_name T' = t_index_name T \<and> t_columns T' = t_columns T"
  using assms(2)
proof (induction ts arbitrary: T)
  case Nil
  then show ?case by simp
next
  case (Cons t ts)
  then obtain T1 where T1: "body t T = Inr T1" "time_loop body ts T1 = Inr T'"
    by (auto split: sum.splits)
  from assms(1) [OF T1(1)] Cons.IH [OF T1(2)] show ?case by simp
qed

lemma init_loop_frame:
  assumes "\<And>init t T T'. body init t T = Inr T' \<Longrightarrow>
     t_index T' = t_index T \<and> t_index_name T' = t_index_name T \<and> t_columns T' = t_columns T"
    and "init_loop body inits ts T = Inr T'"
  shows "t_index T' = t_index T \<and> t_index_name T' = t_index_name T \<and> t_columns T' = t_columns T"
  using assms(2)
proof (induction inits arbitrary: T)
  case Nil
  then show ?case by simp
next
  case (Cons init inits)
  then obtain T1 where T1: "time_loop (body init) ts T = Inr T1" "init_loop body inits ts T1 = Inr T'"
    by (auto split: sum.splits)
  have "t_index T1 = t_index T \<and> t_index_name T1 = t_index_name T \<and> t_columns T1 = t_columns T"
    using T1(1) by (rule time_loop_frame [rotated]) (rule assms(1))
  with Cons.IH [OF T1(2)] show ?case by simp
qed

lemma returned_table_frame:
  assumes "\<forall>T c e t v T'. assign T c e t v = Inr T' \<longrightarrow>
     t_index T' = t_index T \<and> t_index_name T' = t_index_name T \<and> t_columns T' = t_columns T"
    and "compute_relative_entropy be g det_fn lstsq assign initialized control_uninitialized
             anomaly_data neofs curv ntime = Inr T"
  shows "t_index T = [1..int (length (f_times initialized)) - 1]
       \<and> t_index_name T = ''Lead Year''
       \<and> t_columns T = List.product [''R'', ''S'', ''D''] (f_inits initialized)"
proof -
  from assms(2) obtain solver anom_b anom_x n ts where
    il: "init_loop (loop_body be g det_fn lstsq assign solver anom_b anom_x n)
           (f_inits initialized) ts
           (new_table (f_inits initialized) (length (f_times initialized))) = Inr T"
    by (auto simp: compute_relative_entropy_def Let_def split: sum.splits prod.splits)
  have "t_index T = t_index (new_table (f_inits initialized) (length (f_times initialized)))
      \<and> t_index_name T
          = t_index_name (new_table (f_inits initialized) (length (f_times initialized)))
      \<and> t_columns T
          = t_columns (new_table (f_inits initialized) (length (f_times initialized)))"
    using il by (rule init_loop_frame [rotated]) (rule loop_body_frame [OF assms(1)])
  then show ?thesis
    by (simp add: new_table_def)
qed

text \<open>
  C8 (the result table). On the small ensemble, with anomalies given, the first pass of
  the loop projects both slices, evaluates the formula and then stops at line 156 with
  \<^verbatim>\<open>NameError\<close> (the name \<^verbatim>\<open>ens\<close>); and whatever the EOF solver and the least-squares
  solve do, the call ends in an error: no table is returned.
\<close>

theorem engine_store_raises_name_error:
  "compute_relative_entropy axes_backend module_globals np_linalg_det np_lstsq assign
       demo_initialized demo_control_uninitialized True (Some 2) True None = Inl NameError
   \<and> isl (compute_relative_entropy be module_globals det_fn lstsq assign demo_initialized
            demo_control_uninitialized True neofs True None)"
proof
  show "compute_relative_entropy axes_backend module_globals np_linalg_det np_lstsq assign
       demo_initialized demo_control_uninitialized True (Some 2) True None = Inl NameError"
    by (simp add: engine_defs demo_initialized_def demo_control_uninitialized_def eval_defs)
next
  have "isl (init_loop (loop_body be module_globals det_fn lstsq assign solver anom_b anom_x n)
               [1990] [1, 2] T)" for solver anom_b anom_x n T
    by (rule init_loop_fails) (rule loop_body_module_globals)
  then show "isl (compute_relative_entropy be module_globals det_fn lstsq assign
            demo_initialized demo_control_uninitialized True neofs True None)"
    by (simp add: compute_relative_entropy_def anomalies_def eof_weights_def py_take_def
          demo_initialized_def Let_def split: sum.splits)
qed

text \<open>
  C10 (the bootstrap calls the engine with \<^verbatim>\<open>anomaly_data\<close> at its default). In the
  module as it is the first round stops at line 196 with \<^verbatim>\<open>NameError\<close> (the name
  \<^verbatim>\<open>control\<close>) before the engine is called. With \<^verbatim>\<open>control\<close> and \<^verbatim>\<open>ens\<close> bound the
  engine is called, with \<^verbatim>\<open>anomaly_data = False\<close>, and stops at line 109.
\<close>

theorem bootstrap_round_raises_name_error:
  "bootstrap_relative_entropy be module_globals det_fn lstsq assign quantiles draws pos
       demo_initialized demo_control_uninitialized 95 100 True None None = Inl NameError
   \<and> bootstrap_relative_entropy be
       (module_globals\<lparr>g_control := Some [[1, 1], [2, 5], [3, 3]], g_ens := Some 1990\<rparr>)
       det_fn lstsq assign quantiles draws pos demo_initialized demo_control_uninitialized
       95 100 True None None = Inl NameError"
  by (simp add: bootstrap_defs compute_relative_entropy_def anomalies_def module_globals_def
        demo_initialized_def Let_def)

end
